theory Spec2Isabelle
  imports Main "HOL-Library.Sublist"
begin

section \<open>effects.ts: the handlers\<close>

text \<open>
  A handler is a JavaScript function \<^verbatim>\<open>(event: Event) => void\<close>. Two things about it
  matter to the program: its identity (listeners are compared by reference) and what it
  does when it is called. \<open>aliceEffect\<close> and \<open>bobEffect\<close> are the two functions exported by
  \<^verbatim>\<open>effects.ts\<close>, whose text is listed in README.md; \<open>stub n\<close> is the \<open>n\<close>-th function
  made by sinon's \<^verbatim>\<open>stub()\<close> in app.test.ts, which does nothing when called.
\<close>

datatype tHandler = aliceEffect | bobEffect | stub nat

abbreviation stubA :: tHandler where "stubA \<equiv> stub 0"
abbreviation stubB :: tHandler where "stubB \<equiv> stub 1"
abbreviation stubC :: tHandler where "stubC \<equiv> stub 2"
abbreviation stubD :: tHandler where "stubD \<equiv> stub 3"

text \<open>An event, as far as the program looks at it: its \<^verbatim>\<open>type\<close> field.\<close>

datatype Event = Event (etype: string)

text \<open>
  Calling a handler on an event. The state passed through is the list of arguments
  \<^verbatim>\<open>console.debug\<close> has been called with, oldest first.
  \<^verbatim>\<open>
  export function aliceEffect(_event: Event) {
    console.debug("foo_event in aliceEffect()");
  }
  export function bobEffect(_event: Event) {
    // same effect, regardless of the event received
    console.debug("bar_event in bobEffect()");
  }
  \<close>
\<close>

fun call :: "tHandler \<Rightarrow> Event \<Rightarrow> string list \<Rightarrow> string list" where
  "call aliceEffect event console = console @ [''foo_event in aliceEffect()'']"
| "call bobEffect event console = console @ [''bar_event in bobEffect()'']"
| "call (stub n) event console = console"

section \<open>The window as an event target\<close>

text \<open>
  \<^verbatim>\<open>window\<close> belongs to the host (the browser, or jsdom under jest.config.js). The
  program only ever calls \<^verbatim>\<open>window.addEventListener(type, callback)\<close> with two
  arguments, so every listener it adds has the default options; such a listener is the
  pair of its type and its callback, and the state of the window is its event listener
  list, in the order of registration.

  The DOM Standard's "add an event listener" appends the listener unless the list
  already holds one with the same type, callback and capture flag.
\<close>

type_synonym event_listener = "string \<times> tHandler"

definition addEventListener :: "string \<Rightarrow> tHandler \<Rightarrow> event_listener list \<Rightarrow> event_listener list" where
  "addEventListener type callback listeners =
     (if (type, callback) \<in> set listeners then listeners
      else listeners @ [(type, callback)])"

text \<open>
  An event delivered to the window calls the callback of every listener of the event's
  type, in list order. (The events of the tests are dispatched on \<^verbatim>\<open>document.body\<close> with
  \<^verbatim>\<open>bubbles: true\<close> and bubble up to the window.) The result is the list of calls made:
  which handler, on which event.
\<close>

definition dispatchEvent :: "Event \<Rightarrow> event_listener list \<Rightarrow> (tHandler \<times> Event) list" where
  "dispatchEvent event listeners =
     map (\<lambda>l. (snd l, event)) (filter (\<lambda>l. fst l = etype event) listeners)"

definition dispatchEvents :: "Event list \<Rightarrow> event_listener list \<Rightarrow> (tHandler \<times> Event) list" where
  "dispatchEvents events listeners = concat (map (\<lambda>event. dispatchEvent event listeners) events)"

text \<open>How often a handler was called (sinon's \<^verbatim>\<open>callCount\<close>).\<close>

definition callCount :: "tHandler \<Rightarrow> (tHandler \<times> Event) list \<Rightarrow> nat" where
  "callCount h calls = count_list (map fst calls) h"

text \<open>What the calls made log through \<^verbatim>\<open>console.debug\<close>, starting from a silent console.\<close>

definition console_debug :: "(tHandler \<times> Event) list \<Rightarrow> string list" where
  "console_debug calls = foldl (\<lambda>console c. call (fst c) (snd c) console) [] calls"

section \<open>app.ts\<close>

text \<open>
  \<^verbatim>\<open>type tConfig = { [x: string]: tHandler | tHandler[] }\<close>: an object whose values are
  a handler or an array of handlers. The object is modelled by its own properties in the
  order in which \<^verbatim>\<open>Object.entries\<close> lists them.
\<close>

datatype tValue = Single tHandler | Many "tHandler list"

type_synonym tConfig = "(string \<times> tValue) list"

text \<open>lodash's \<^verbatim>\<open>castArray\<close>: an array is returned as it is, anything else is wrapped.\<close>

fun castArray :: "tValue \<Rightarrow> tHandler list" where
  "castArray (Many handlers) = handlers"
| "castArray (Single handler) = [handler]"

definition LISTENER_CONFIG :: tConfig where
  "LISTENER_CONFIG =
     [(''foo_event'', Many [aliceEffect, bobEffect]),
      (''bar_event'', Single bobEffect)]"

text \<open>
  \<^verbatim>\<open>
  export function init(config: tConfig = LISTENER_CONFIG) {
    for (const [event, handlers] of Object.entries(config))
      for (const handler of castArray(handlers))
        window.addEventListener(event, handler);
  }
  \<close>
  The two loops are written over the operation \<open>register\<close> that stands for
  \<^verbatim>\<open>window.addEventListener\<close> and over the state \<open>w\<close> that it changes, so that the calls
  themselves can be observed as well as their effect on the window. The missing
  argument of \<^verbatim>\<open>init()\<close> is \<open>None\<close>. The function returns nothing: its result here is the
  state after the call.
\<close>

fun for_handler :: "(string \<Rightarrow> tHandler \<Rightarrow> 'w \<Rightarrow> 'w) \<Rightarrow> string \<Rightarrow> tHandler list \<Rightarrow> 'w \<Rightarrow> 'w" where
  "for_handler register event [] w = w"
| "for_handler register event (handler # rest) w =
     for_handler register event rest (register event handler w)"

fun for_entry :: "(string \<Rightarrow> tHandler \<Rightarrow> 'w \<Rightarrow> 'w) \<Rightarrow> tConfig \<Rightarrow> 'w \<Rightarrow> 'w" where
  "for_entry register [] w = w"
| "for_entry register ((event, handlers) # rest) w =
     for_entry register rest (for_handler register event (castArray handlers) w)"

definition init_on :: "(string \<Rightarrow> tHandler \<Rightarrow> 'w \<Rightarrow> 'w) \<Rightarrow> tConfig option \<Rightarrow> 'w \<Rightarrow> 'w" where
  "init_on register config w =
     for_entry register (case config of None \<Rightarrow> LISTENER_CONFIG | Some c \<Rightarrow> c) w"

definition init :: "tConfig option \<Rightarrow> event_listener list \<Rightarrow> event_listener list" where
  "init config listeners = init_on addEventListener config listeners"

text \<open>
  A target that only records the registration calls made on it, in order (what a spy on
  \<^verbatim>\<open>window.addEventListener\<close> would see).
\<close>

definition record_call :: "string \<Rightarrow> tHandler \<Rightarrow> event_listener list \<Rightarrow> event_listener list" where
  "record_call type callback calls = calls @ [(type, callback)]"

section \<open>app.ts on the heap\<close>

text \<open>
  In the functions above a configuration is a value. In the program it is an object that
  \<^verbatim>\<open>init\<close> receives by reference, and its arrays are objects of their own that other code
  may hold too. The heap maps addresses to objects: arrays of handlers, plain objects
  (their own properties in the order of \<^verbatim>\<open>Object.entries\<close>) and the window with its
  listener list. A property's value is a function or a reference.
\<close>

type_synonym addr = nat

datatype val = Fn tHandler | Ref addr

datatype object =
    Array "tHandler list"
  | Object "(string \<times> val) list"
  | EventTarget "event_listener list"

type_synonym heap = "addr \<Rightarrow> object option"

text \<open>
  \<^verbatim>\<open>window.addEventListener\<close> with the window at address \<open>win\<close>: the one write of the
  program. \<open>None\<close> is a call that throws (nothing that listens is at \<open>win\<close>).
\<close>

definition heap_addEventListener :: "addr \<Rightarrow> string \<Rightarrow> tHandler \<Rightarrow> heap \<Rightarrow> heap option" where
  "heap_addEventListener win type callback h =
     (case h win of
        Some (EventTarget listeners) \<Rightarrow>
          Some (h(win \<mapsto> EventTarget (addEventListener type callback listeners)))
      | _ \<Rightarrow> None)"

text \<open>
  \<^verbatim>\<open>castArray(value)\<close> is \<^verbatim>\<open>isArray(value) ? value : [value]\<close>: for an array it returns the
  reference it was given, so the loop walks the caller's own array; for a function it
  makes a new one-element array, which nothing but the loop can reach and which is
  therefore kept out of the heap. A value that is neither a function nor an array of
  functions is outside \<^verbatim>\<open>tConfig\<close>; the model stops there with \<open>None\<close>.
\<close>

datatype iterable = Fresh "tHandler list" | Stored addr

definition heap_castArray :: "heap \<Rightarrow> val \<Rightarrow> iterable option" where
  "heap_castArray h v =
     (case v of
        Fn f \<Rightarrow> Some (Fresh [f])
      | Ref r \<Rightarrow> (case h r of Some (Array handlers) \<Rightarrow> Some (Stored r) | _ \<Rightarrow> None))"

text \<open>
  \<^verbatim>\<open>for (const handler of array)\<close> on an array in the heap: the iterator keeps an index and
  reads the array's length and its element from the heap at every step, after the writes
  of the steps before.
\<close>

function for_of_array :: "addr \<Rightarrow> string \<Rightarrow> addr \<Rightarrow> nat \<Rightarrow> heap \<Rightarrow> heap option" where
  "for_of_array win event r i h =
     (case h r of
        Some (Array handlers) \<Rightarrow>
          if i < length handlers then
            (case heap_addEventListener win event (handlers ! i) h of
               None \<Rightarrow> None
             | Some h' \<Rightarrow> for_of_array win event r (Suc i) h')
          else Some h
      | _ \<Rightarrow> None)"
  by pat_completeness auto
termination
proof (relation "measure (\<lambda>(win, event, r, i, h).
         case h r of Some (Array handlers) \<Rightarrow> length handlers - i | _ \<Rightarrow> 0)")
  show "wf (measure (\<lambda>(win, event, r, i, h).
         case h r of Some (Array handlers) \<Rightarrow> length handlers - i | _ \<Rightarrow> 0))"
    by simp
next
  fix win :: addr and event :: string and r :: addr and i :: nat and h :: heap
    and x2 handlers h'
  assume r: "h r = Some x2" "x2 = Array handlers" and i: "i < length handlers"
    and add: "heap_addEventListener win event (handlers ! i) h = Some h'"
  from add r have "h' r = h r"
    by (auto simp: heap_addEventListener_def split: option.splits object.splits)
  with r i show "((win, event, r, Suc i, h'), (win, event, r, i, h))
      \<in> measure (\<lambda>(win, event, r, i, h).
         case h r of Some (Array handlers) \<Rightarrow> length handlers - i | _ \<Rightarrow> 0)"
    by simp
qed

declare for_of_array.simps [simp del]

fun for_of_fresh :: "addr \<Rightarrow> string \<Rightarrow> tHandler list \<Rightarrow> heap \<Rightarrow> heap option" where
  "for_of_fresh win event [] h = Some h"
| "for_of_fresh win event (handler # rest) h =
     (case heap_addEventListener win event handler h of
        None \<Rightarrow> None
      | Some h' \<Rightarrow> for_of_fresh win event rest h')"

definition for_of :: "addr \<Rightarrow> string \<Rightarrow> iterable \<Rightarrow> heap \<Rightarrow> heap option" where
  "for_of win event it h =
     (case it of
        Fresh handlers \<Rightarrow> for_of_fresh win event handlers h
      | Stored r \<Rightarrow> for_of_array win event r 0 h)"

text \<open>
  The outer loop walks the array that \<^verbatim>\<open>Object.entries(config)\<close> returned: a new array,
  filled from the object's properties once, before the first step.
\<close>

fun for_entries :: "addr \<Rightarrow> (string \<times> val) list \<Rightarrow> heap \<Rightarrow> heap option" where
  "for_entries win [] h = Some h"
| "for_entries win ((event, handlers) # rest) h =
     (case heap_castArray h handlers of
        None \<Rightarrow> None
      | Some it \<Rightarrow>
          (case for_of win event it h of
             None \<Rightarrow> None
           | Some h' \<Rightarrow> for_entries win rest h'))"

text \<open>
  \<^verbatim>\<open>init(config)\<close> with the window at \<open>win\<close> and the module's \<^verbatim>\<open>LISTENER_CONFIG\<close> object at
  \<open>listener_config\<close>; \<open>config\<close> is the reference passed, if one is.
\<close>

definition heap_init :: "addr \<Rightarrow> addr \<Rightarrow> addr option \<Rightarrow> heap \<Rightarrow> heap option" where
  "heap_init win listener_config config h =
     (case h (case config of None \<Rightarrow> listener_config | Some c \<Rightarrow> c) of
        Some (Object properties) \<Rightarrow> for_entries win properties h
      | _ \<Rightarrow> None)"

text \<open>
  The configuration that the object at an address stands for, read through its
  references; \<open>None\<close> if what is there is not a \<^verbatim>\<open>tConfig\<close>.
\<close>

fun read_value :: "heap \<Rightarrow> val \<Rightarrow> tValue option" where
  "read_value h (Fn f) = Some (Single f)"
| "read_value h (Ref r) =
     (case h r of Some (Array handlers) \<Rightarrow> Some (Many handlers) | _ \<Rightarrow> None)"

fun read_entries :: "heap \<Rightarrow> (string \<times> val) list \<Rightarrow> tConfig option" where
  "read_entries h [] = Some []"
| "read_entries h ((k, v) # rest) =
     (case read_value h v of
        None \<Rightarrow> None
      | Some x \<Rightarrow>
          (case read_entries h rest of None \<Rightarrow> None | Some c \<Rightarrow> Some ((k, x) # c)))"

definition read_config :: "heap \<Rightarrow> addr \<Rightarrow> tConfig option" where
  "read_config h config =
     (case h config of Some (Object properties) \<Rightarrow> read_entries h properties | _ \<Rightarrow> None)"

section \<open>The attachment algorithm as the specification words it\<close>

text \<open>
  The specification normalizes each value to a sequence (a single handler becomes a
  one-element sequence, a sequence stays as it is) and registers each handler of the
  sequence for the entry's event type. \<open>spec_registrations\<close> is the list of
  (event type, handler) pairs this asks for.
\<close>

fun spec_normalize :: "tValue \<Rightarrow> tHandler list" where
  "spec_normalize (Single h) = [h]"
| "spec_normalize (Many hs) = hs"

definition spec_registrations :: "tConfig \<Rightarrow> event_listener list" where
  "spec_registrations c = concat (map (\<lambda>(t, v). map (Pair t) (spec_normalize v)) c)"

text \<open>The configuration of the test of \<^verbatim>\<open>init\<close> in app.test.ts.\<close>

definition test_config :: tConfig where
  "test_config =
     [(''zim'', Single stubC),
      (''gir'', Many [stubC, stubB]),
      (''dib'', Many [stubC, stubB, stubA]),
      (''gaz'', Many [])]"

text \<open>
  The same configuration as the test builds it: the window at address 0, still without
  listeners, the configuration object at 1 and its three arrays at 2, 3 and 4.
\<close>

definition test_heap :: heap where
  "test_heap =
     [0 \<mapsto> EventTarget [],
      1 \<mapsto> Object [(''zim'', Fn stubC), (''gir'', Ref 2), (''dib'', Ref 3), (''gaz'', Ref 4)],
      2 \<mapsto> Array [stubC, stubB],
      3 \<mapsto> Array [stubC, stubB, stubA],
      4 \<mapsto> Array []]"

section \<open>The loops as a fold over the registrations\<close>

lemma castArray_spec_normalize: "castArray v = spec_normalize v"
  by (cases v) simp_all

lemma for_handler_foldl:
  "for_handler register event hs w = foldl (\<lambda>w p. register (fst p) (snd p) w) w (map (Pair event) hs)"
  by (induction hs arbitrary: w) simp_all

lemma for_entry_foldl:
  "for_entry register c w = foldl (\<lambda>w p. register (fst p) (snd p) w) w (spec_registrations c)"
proof (induction c arbitrary: w)
  case Nil
  show ?case by (simp add: spec_registrations_def)
next
  case (Cons entry rest)
  obtain t v where entry: "entry = (t, v)" by (cases entry)
  have "spec_registrations (entry # rest) = map (Pair t) (castArray v) @ spec_registrations rest"
    by (simp add: spec_registrations_def entry castArray_spec_normalize)
  then show ?case
    by (simp add: entry Cons.IH for_handler_foldl)
qed

lemma foldl_record_call:
  "foldl (\<lambda>w p. record_call (fst p) (snd p) w) calls ps = calls @ ps"
  by (induction ps arbitrary: calls) (simp_all add: record_call_def)

section \<open>Facts about the window's listener list\<close>

lemma set_addEventListener: "set (addEventListener t h w) = insert (t, h) (set w)"
  by (auto simp: addEventListener_def)

lemma distinct_addEventListener: "distinct w \<Longrightarrow> distinct (addEventListener t h w)"
  by (simp add: addEventListener_def)

lemma prefix_addEventListener: "prefix w (addEventListener t h w)"
  by (simp add: addEventListener_def)

lemma addEventListener_present: "(t, h) \<in> set w \<Longrightarrow> addEventListener t h w = w"
  by (simp add: addEventListener_def)

lemma set_foldl_add:
  "set (foldl (\<lambda>w p. addEventListener (fst p) (snd p) w) w ps) = set w \<union> set ps"
  by (induction ps arbitrary: w) (auto simp: set_addEventListener)

lemma distinct_foldl_add:
  "distinct w \<Longrightarrow> distinct (foldl (\<lambda>w p. addEventListener (fst p) (snd p) w) w ps)"
  by (induction ps arbitrary: w) (simp_all add: distinct_addEventListener)

lemma prefix_foldl_add:
  "prefix w (foldl (\<lambda>w p. addEventListener (fst p) (snd p) w) w ps)"
proof (induction ps arbitrary: w)
  case Nil
  show ?case by simp
next
  case (Cons p ps)
  have "prefix w (addEventListener (fst p) (snd p) w)"
    by (rule prefix_addEventListener)
  also have "prefix \<dots>
      (foldl (\<lambda>w p. addEventListener (fst p) (snd p) w) (addEventListener (fst p) (snd p) w) ps)"
    by (rule Cons.IH)
  finally show ?case by simp
qed

lemma foldl_add_present:
  "set ps \<subseteq> set w \<Longrightarrow> foldl (\<lambda>w p. addEventListener (fst p) (snd p) w) w ps = w"
  by (induction ps arbitrary: w) (simp_all add: addEventListener_present)

lemma init_foldl:
  "init config w = foldl (\<lambda>w p. addEventListener (fst p) (snd p) w) w
     (spec_registrations (case config of None \<Rightarrow> LISTENER_CONFIG | Some c \<Rightarrow> c))"
  by (simp add: init_def init_on_def for_entry_foldl)

lemma set_init:
  "set (init config w)
     = set w \<union> set (spec_registrations (case config of None \<Rightarrow> LISTENER_CONFIG | Some c \<Rightarrow> c))"
  by (simp add: init_foldl set_foldl_add)

lemma distinct_init: "distinct w \<Longrightarrow> distinct (init config w)"
  by (simp add: init_foldl distinct_foldl_add)

lemma prefix_init: "prefix w (init config w)"
  by (simp add: init_foldl prefix_foldl_add)

lemma init_twice: "init config (init config w) = init config w"
proof -
  have "set (spec_registrations (case config of None \<Rightarrow> LISTENER_CONFIG | Some c \<Rightarrow> c))
      \<subseteq> set (init config w)"
    by (simp add: set_init)
  then show ?thesis
    by (subst init_foldl) (rule foldl_add_present)
qed

lemma listed_in_spec_registrations:
  "(t, v) \<in> set c \<Longrightarrow> h \<in> set (castArray v) \<Longrightarrow> (t, h) \<in> set (spec_registrations c)"
  by (force simp: spec_registrations_def castArray_spec_normalize)

lemma spec_registrations_key:
  "(t, h) \<in> set (spec_registrations c) \<Longrightarrow> t \<in> set (map fst c)"
  by (force simp: spec_registrations_def)

lemma count_list_distinct: "distinct xs \<Longrightarrow> x \<in> set xs \<Longrightarrow> count_list xs x = 1"
  by (induction xs) auto

lemma count_list_distinct_le: "distinct xs \<Longrightarrow> count_list xs x \<le> 1"
  by (induction xs) auto

lemma callCount_dispatchEvent:
  "callCount h (dispatchEvent event w) = count_list w (etype event, h)"
  by (induction w) (auto simp: callCount_def dispatchEvent_def)

lemma dispatchEvent_no_listener:
  "etype event \<notin> fst ` set w \<Longrightarrow> dispatchEvent event w = []"
  by (induction w) (auto simp: dispatchEvent_def)

section \<open>What the loops do to the heap\<close>

lemma for_of_array_result:
  "h r = Some (Array hs) \<Longrightarrow> h win = Some (EventTarget ls) \<Longrightarrow> n = length hs - i \<Longrightarrow>
   for_of_array win event r i h
     = Some (h(win \<mapsto> EventTarget (for_handler addEventListener event (drop i hs) ls)))"
proof (induction n arbitrary: i h ls)
  case 0
  then have "drop i hs = []" by simp
  with 0 show ?case
    by (subst for_of_array.simps) (auto simp: fun_upd_idem)
next
  case (Suc n)
  then have i: "i < length hs" by simp
  have neq: "r \<noteq> win" using Suc.prems(1,2) by auto
  let ?ls = "addEventListener event (hs ! i) ls"
  let ?h = "h(win \<mapsto> EventTarget ?ls)"
  have step: "heap_addEventListener win event (hs ! i) h = Some ?h"
    using Suc.prems(2) by (simp add: heap_addEventListener_def)
  have "for_of_array win event r (Suc i) ?h
      = Some (?h(win \<mapsto> EventTarget (for_handler addEventListener event (drop (Suc i) hs) ?ls)))"
    using Suc.prems neq by (intro Suc.IH) auto
  moreover have "drop i hs = hs ! i # drop (Suc i) hs"
    using i by (simp add: Cons_nth_drop_Suc)
  ultimately show ?case
    using Suc.prems(1) i step by (subst for_of_array.simps) simp
qed

lemma for_of_fresh_result:
  "h win = Some (EventTarget ls) \<Longrightarrow>
   for_of_fresh win event hs h
     = Some (h(win \<mapsto> EventTarget (for_handler addEventListener event hs ls)))"
  by (induction hs arbitrary: h ls) (simp_all add: heap_addEventListener_def fun_upd_idem)

lemma for_of_result:
  assumes "read_value h v = Some x" and "h win = Some (EventTarget ls)"
  shows "\<exists>it. heap_castArray h v = Some it
           \<and> for_of win event it h
               = Some (h(win \<mapsto> EventTarget (for_handler addEventListener event (castArray x) ls)))"
proof (cases v)
  case (Fn f)
  with assms(1) have "x = Single f" by simp
  with Fn assms(2) show ?thesis
    by (simp add: heap_castArray_def for_of_def for_of_fresh_result del: for_of_fresh.simps)
next
  case (Ref r)
  with assms(1) obtain hs where "h r = Some (Array hs)" and "x = Many hs"
    by (auto split: option.splits object.splits)
  with Ref assms(2) show ?thesis
    by (simp add: heap_castArray_def for_of_def for_of_array_result [where n = "length hs"])
qed

lemma read_value_window:
  "h win = Some (EventTarget ls) \<Longrightarrow> read_value (h(win \<mapsto> EventTarget ls')) v = read_value h v"
  by (cases v) auto

lemma read_entries_window:
  "h win = Some (EventTarget ls) \<Longrightarrow>
   read_entries (h(win \<mapsto> EventTarget ls')) ps = read_entries h ps"
  by (induction ps) (auto simp: read_value_window split: option.splits)

lemma for_entries_result:
  "read_entries h ps = Some c \<Longrightarrow> h win = Some (EventTarget ls) \<Longrightarrow>
   for_entries win ps h = Some (h(win \<mapsto> EventTarget (for_entry addEventListener c ls)))"
proof (induction ps arbitrary: c h ls)
  case Nil
  then show ?case by (simp add: fun_upd_idem)
next
  case (Cons p ps)
  obtain k v where p: "p = (k, v)" by (cases p)
  from Cons.prems(1) obtain x c' where x: "read_value h v = Some x"
    and c': "read_entries h ps = Some c'" and c: "c = (k, x) # c'"
    by (auto simp: p split: option.splits)
  let ?ls = "for_handler addEventListener k (castArray x) ls"
  let ?h = "h(win \<mapsto> EventTarget ?ls)"
  from for_of_result [OF x Cons.prems(2)] obtain it
    where cast: "heap_castArray h v = Some it" and inner: "for_of win k it h = Some ?h"
    by blast
  have "read_entries ?h ps = Some c'"
    using c' Cons.prems(2) by (simp add: read_entries_window)
  then have "for_entries win ps ?h
      = Some (?h(win \<mapsto> EventTarget (for_entry addEventListener c' ?ls)))"
    by (rule Cons.IH) simp
  then have rest: "for_entries win ps ?h
      = Some (h(win \<mapsto> EventTarget (for_entry addEventListener c' ?ls)))"
    by simp
  have unfold: "for_entry addEventListener c ls = for_entry addEventListener c' ?ls"
    by (simp add: c)
  have "for_entries win (p # ps) h = for_entries win ps ?h"
    by (simp add: p cast inner)
  also note rest
  finally show ?case
    unfolding unfold .
qed

section \<open>The attachment algorithm\<close>

text \<open>
  C1. \<open>init\<close> performs the attachment algorithm of the specification. \<open>castArray\<close> turns a
  single handler into a one-element sequence and leaves a sequence as it is. On a target
  that records the registration calls, \<open>init\<close> with a configuration \<open>c\<close> adds exactly the
  calls \<open>spec_registrations c\<close>, one per (event type, handler) pair, in order, and nothing
  else; on any target its effect is that of these calls made from left to right. A key
  mapped to the empty sequence causes no call. The only result of \<open>init\<close> is the state of
  the target.
\<close>

theorem init_attachment_algorithm:
  "castArray (Single h) = [h]
   \<and> castArray (Many hs) = hs
   \<and> init_on record_call (Some c) calls = calls @ spec_registrations c
   \<and> init_on register (Some c) w
       = foldl (\<lambda>w p. register (fst p) (snd p) w) w (spec_registrations c)
   \<and> init (Some c) listeners
       = foldl (\<lambda>w p. addEventListener (fst p) (snd p) w) listeners (spec_registrations c)
   \<and> init_on record_call (Some [(t, Many [])]) calls = calls"
  by (simp add: init_def init_on_def for_entry_foldl foldl_record_call spec_registrations_def)

section \<open>Registration on the window\<close>

text \<open>
  C2. As stated, the claim asks for purely additive registration: after \<open>init\<close> the
  listener list would be the earlier list followed by every pair of the configuration,
  equal pairs included. The window does not do that: \<^verbatim>\<open>addEventListener\<close> ignores a pair
  that is already in its list. What holds: when the list had no duplicates before (the
  window keeps it so), every (event type, handler) pair listed in the configuration is in
  the list exactly once after \<open>init\<close>; the earlier list is a prefix of the new one, so no
  earlier registration is removed, replaced or moved; the listeners afterwards are the
  earlier ones and the listed pairs; and the list still has no duplicates.
\<close>

theorem init_registers_each_pair_once:
  assumes "distinct w" and "(t, v) \<in> set c" and "h \<in> set (castArray v)"
  shows "count_list (init (Some c) w) (t, h) = 1
         \<and> prefix w (init (Some c) w)
         \<and> set (init (Some c) w) = set w \<union> set (spec_registrations c)
         \<and> distinct (init (Some c) w)"
proof -
  have d: "distinct (init (Some c) w)"
    using assms(1) by (rule distinct_init)
  have "(t, h) \<in> set (spec_registrations c)"
    using assms(2,3) by (rule listed_in_spec_registrations)
  then have "(t, h) \<in> set (init (Some c) w)"
    by (simp add: set_init)
  with d have "count_list (init (Some c) w) (t, h) = 1"
    by (rule count_list_distinct)
  with d show ?thesis
    by (simp add: prefix_init set_init)
qed

text \<open>
  The theorem at a window that already listens for \<open>dib\<close> with \<open>stubB\<close>, and a
  configuration that lists \<open>stubB\<close> twice under \<open>dib\<close>.
\<close>

theorem init_registers_each_pair_once_witness:
  "distinct [(''dib'', stubB)]
   \<and> (''dib'', Many [stubC, stubB, stubB]) \<in> set [(''dib'', Many [stubC, stubB, stubB])]
   \<and> stubB \<in> set (castArray (Many [stubC, stubB, stubB]))
   \<and> count_list (init (Some [(''dib'', Many [stubC, stubB, stubB])]) [(''dib'', stubB)])
        (''dib'', stubB) = 1
   \<and> init (Some [(''dib'', Many [stubC, stubB, stubB])]) [(''dib'', stubB)]
        = [(''dib'', stubB), (''dib'', stubC)]"
  using init_registers_each_pair_once [of "[(''dib'', stubB)]" "''dib''"
      "Many [stubC, stubB, stubB]" "[(''dib'', Many [stubC, stubB, stubB])]" stubB]
  by (simp add: init_def init_on_def addEventListener_def)

text \<open>
  Registration is not purely additive. With \<^verbatim>\<open>{zim: [C, C]}\<close> on a fresh window, and
  with \<^verbatim>\<open>{zim: C}\<close> on a window that already listens for \<open>zim\<close> with \<open>C\<close>, the listener
  list after \<open>init\<close> is not the earlier list followed by the configuration's pairs.
\<close>

theorem init_not_additive_counterexample:
  "init (Some [(''zim'', Many [stubC, stubC])]) []
     \<noteq> [] @ spec_registrations [(''zim'', Many [stubC, stubC])]
   \<and> init (Some [(''zim'', Single stubC)]) [(''zim'', stubC)]
     \<noteq> [(''zim'', stubC)] @ spec_registrations [(''zim'', Single stubC)]"
  by (simp add: init_def init_on_def addEventListener_def spec_registrations_def)

text \<open>
  C3. As stated, the claim has every handler under a key called twice when \<open>init\<close> has
  run twice on the same window. The second run registers nothing, since every pair it
  asks for is already in the list: \<open>init\<close> twice leaves the window as \<open>init\<close> once does,
  and an event whose type is a key of the configuration calls each handler listed under
  that key exactly once (on a window whose list had no duplicates before). The suite in
  app.test.ts relies on this: it runs \<^verbatim>\<open>init()\<close> before each of its tests on one window
  and expects \<^verbatim>\<open>calledOnce\<close> each time.
\<close>

theorem init_twice_calls_once:
  assumes "distinct w" and "(t, v) \<in> set c" and "h \<in> set (castArray v)"
  shows "init (Some c) (init (Some c) w) = init (Some c) w
         \<and> callCount h (dispatchEvent (Event t) (init (Some c) (init (Some c) w))) = 1"
proof -
  have "(t, h) \<in> set (spec_registrations c)"
    using assms(2,3) by (rule listed_in_spec_registrations)
  then have "(t, h) \<in> set (init (Some c) w)"
    by (simp add: set_init)
  moreover have "distinct (init (Some c) w)"
    using assms(1) by (rule distinct_init)
  ultimately have "count_list (init (Some c) w) (t, h) = 1"
    by (simp add: count_list_distinct)
  then show ?thesis
    by (simp add: init_twice callCount_dispatchEvent)
qed

text \<open>The theorem at the default configuration, on a fresh window, for \<open>bobEffect\<close>.\<close>

theorem init_twice_calls_once_witness:
  "distinct ([] :: event_listener list)
   \<and> (''foo_event'', Many [aliceEffect, bobEffect]) \<in> set LISTENER_CONFIG
   \<and> bobEffect \<in> set (castArray (Many [aliceEffect, bobEffect]))
   \<and> callCount bobEffect (dispatchEvent (Event ''foo_event'')
        (init (Some LISTENER_CONFIG) (init (Some LISTENER_CONFIG) []))) = 1"
proof -
  have fresh: "distinct ([] :: event_listener list)"
    by simp
  have listed: "(''foo_event'', Many [aliceEffect, bobEffect]) \<in> set LISTENER_CONFIG"
    by (simp add: LISTENER_CONFIG_def)
  have member: "bobEffect \<in> set (castArray (Many [aliceEffect, bobEffect]))"
    by simp
  from fresh listed member init_twice_calls_once [OF fresh listed member]
  show ?thesis by blast
qed

text \<open>
  After two runs of \<open>init\<close> with the default configuration on a fresh window, one
  \<open>foo_event\<close> calls \<open>aliceEffect\<close> once, not twice.
\<close>

theorem init_twice_counterexample:
  "callCount aliceEffect (dispatchEvent (Event ''foo_event'')
       (init (Some LISTENER_CONFIG) (init (Some LISTENER_CONFIG) []))) = 1
   \<and> callCount aliceEffect (dispatchEvent (Event ''foo_event'')
       (init (Some LISTENER_CONFIG) (init (Some LISTENER_CONFIG) []))) \<noteq> 2"
  by (simp add: init_def init_on_def addEventListener_def LISTENER_CONFIG_def callCount_def
      dispatchEvent_def)

section \<open>The scenarios of the tests\<close>

text \<open>
  C4. With the configuration \<^verbatim>\<open>{zim: C, gir: [C,B], dib: [C,B,A], gaz: []}\<close> on a fresh
  window, one event each of the types \<open>zim\<close>, \<open>dib\<close> and \<open>gaz\<close> (none of type \<open>gir\<close>)
  calls \<open>C\<close> for \<open>zim\<close> and \<open>C\<close>, \<open>B\<close>, \<open>A\<close> for \<open>dib\<close>: \<open>A\<close> once, \<open>B\<close> once, \<open>C\<close> twice, and
  \<open>D\<close>, which the configuration does not mention, never.
\<close>

theorem init_test_scenario:
  "dispatchEvents [Event ''zim'', Event ''dib'', Event ''gaz''] (init (Some test_config) [])
     = [(stubC, Event ''zim''), (stubC, Event ''dib''), (stubB, Event ''dib''),
        (stubA, Event ''dib'')]
   \<and> callCount stubA
        (dispatchEvents [Event ''zim'', Event ''dib'', Event ''gaz''] (init (Some test_config) [])) = 1
   \<and> callCount stubB
        (dispatchEvents [Event ''zim'', Event ''dib'', Event ''gaz''] (init (Some test_config) [])) = 1
   \<and> callCount stubC
        (dispatchEvents [Event ''zim'', Event ''dib'', Event ''gaz''] (init (Some test_config) [])) = 2
   \<and> callCount stubD
        (dispatchEvents [Event ''zim'', Event ''dib'', Event ''gaz''] (init (Some test_config) [])) = 0"
proof -
  have w: "init (Some test_config) []
      = [(''zim'', stubC), (''gir'', stubC), (''gir'', stubB),
         (''dib'', stubC), (''dib'', stubB), (''dib'', stubA)]"
    by (simp add: init_def init_on_def addEventListener_def test_config_def)
  have "dispatchEvents [Event ''zim'', Event ''dib'', Event ''gaz''] (init (Some test_config) [])
     = [(stubC, Event ''zim''), (stubC, Event ''dib''), (stubB, Event ''dib''),
        (stubA, Event ''dib'')]"
    by (simp add: w dispatchEvents_def dispatchEvent_def)
  then show ?thesis
    by (simp add: callCount_def)
qed

text \<open>
  C5. \<open>bobEffect\<close> (handler B of the specification) logs the string that names
  \<open>bar_event\<close> whatever event it is called on. With the configuration
  \<^verbatim>\<open>{foo_event: [aliceEffect, bobEffect]}\<close> on a fresh window, one \<open>foo_event\<close> makes
  exactly two calls of \<^verbatim>\<open>console.debug\<close>: \<open>aliceEffect\<close>'s string for \<open>foo_event\<close> and
  \<open>bobEffect\<close>'s string for \<open>bar_event\<close>. The strings carry the functions' own names,
  which the specification shortens to A and B.
\<close>

theorem bobEffect_hard_coded:
  "call bobEffect event console = console @ [''bar_event in bobEffect()'']
   \<and> console_debug (dispatchEvent (Event ''foo_event'')
        (init (Some [(''foo_event'', Many [aliceEffect, bobEffect])]) []))
     = [''foo_event in aliceEffect()'', ''bar_event in bobEffect()'']"
  by (simp add: init_def init_on_def addEventListener_def dispatchEvent_def console_debug_def)

section \<open>Normalization, absent types and the default configuration\<close>

text \<open>
  C6. A configuration that maps a key \<open>t\<close> to the single handler \<open>h\<close> and one that maps
  \<open>t\<close> to the one-element array \<open>[h]\<close> register alike: on every target and with any
  other entries before and after, \<open>init\<close> gives the same state for both, and so it does
  on the window when \<open>t\<close> is the only key.
\<close>

theorem normalization_equivalence:
  "init_on register (Some (c1 @ (t, Single h) # c2)) w
     = init_on register (Some (c1 @ (t, Many [h]) # c2)) w
   \<and> init (Some [(t, Single h)]) listeners = init (Some [(t, Many [h])]) listeners"
proof -
  have "spec_registrations (c1 @ (t, Single h) # c2) = spec_registrations (c1 @ (t, Many [h]) # c2)"
    by (simp add: spec_registrations_def)
  then have "init_on register (Some (c1 @ (t, Single h) # c2)) w
      = init_on register (Some (c1 @ (t, Many [h]) # c2)) w"
    by (simp add: init_on_def for_entry_foldl)
  moreover have "init (Some [(t, Single h)]) listeners = init (Some [(t, Many [h])]) listeners"
    by (simp add: init_def init_on_def)
  ultimately show ?thesis by simp
qed

text \<open>
  C7. After \<open>init\<close> with a configuration on a fresh window, an event whose type is not a
  key of the configuration calls no handler.
\<close>

theorem absent_type_no_handler:
  assumes "t \<notin> set (map fst c)"
  shows "dispatchEvent (Event t) (init (Some c) []) = []"
proof -
  have "t \<notin> fst ` set (init (Some c) [])"
  proof
    assume "t \<in> fst ` set (init (Some c) [])"
    then obtain h where "(t, h) \<in> set (spec_registrations c)"
      by (auto simp: set_init)
    then have "t \<in> set (map fst c)"
      by (rule spec_registrations_key)
    with assms show False by simp
  qed
  then show ?thesis
    by (simp add: dispatchEvent_no_listener)
qed

text \<open>The theorem at the test's configuration and the type \<open>quux\<close> the test raises.\<close>

theorem absent_type_no_handler_witness:
  "''quux'' \<notin> set (map fst test_config)
   \<and> dispatchEvent (Event ''quux'') (init (Some test_config) []) = []"
  using absent_type_no_handler [of "''quux''" test_config]
  by (simp add: test_config_def)

text \<open>
  C8. \<open>init\<close> is the one function of app.ts; its result is the state of the window and
  nothing else. Called without an argument it uses \<open>LISTENER_CONFIG\<close>, which maps
  \<open>foo_event\<close> to \<open>[aliceEffect, bobEffect]\<close> and \<open>bar_event\<close> to \<open>bobEffect\<close>; on a fresh
  window that gives the three listeners below. Called with a configuration it runs the
  loops on that configuration and not on the default: with the empty configuration it
  leaves the window as it was.
\<close>

theorem init_default_configuration:
  "init None listeners = init (Some LISTENER_CONFIG) listeners
   \<and> LISTENER_CONFIG
       = [(''foo_event'', Many [aliceEffect, bobEffect]), (''bar_event'', Single bobEffect)]
   \<and> init None []
       = [(''foo_event'', aliceEffect), (''foo_event'', bobEffect), (''bar_event'', bobEffect)]
   \<and> init (Some c) listeners = for_entry addEventListener c listeners
   \<and> init (Some []) listeners = listeners"
  by (simp add: init_def init_on_def LISTENER_CONFIG_def addEventListener_def)

section \<open>No duplicate listeners\<close>

text \<open>
  C9. The window's listener list never holds the same (event type, handler) pair twice:
  a list without duplicates stays so through \<open>init\<close>, and through a second \<open>init\<close> with
  any other configuration. So after the two runs each pair is registered at most once,
  and one event calls each handler at most once.
\<close>

theorem listener_list_no_duplicates:
  assumes "distinct w"
  shows "distinct (init c1 w)
         \<and> distinct (init c2 (init c1 w))
         \<and> count_list (init c2 (init c1 w)) (t, h) \<le> 1
         \<and> callCount h (dispatchEvent (Event t) (init c2 (init c1 w))) \<le> 1"
proof -
  have d1: "distinct (init c1 w)"
    using assms by (rule distinct_init)
  then have d2: "distinct (init c2 (init c1 w))"
    by (rule distinct_init)
  then have le: "count_list (init c2 (init c1 w)) (t, h) \<le> 1"
    by (rule count_list_distinct_le)
  then have "callCount h (dispatchEvent (Event t) (init c2 (init c1 w))) \<le> 1"
    by (simp add: callCount_dispatchEvent)
  with d1 d2 le show ?thesis by blast
qed

text \<open>
  The theorem on a fresh window, for \<^verbatim>\<open>{foo_event: bobEffect}\<close> followed by the default
  configuration, which overlap in the pair (\<open>foo_event\<close>, \<open>bobEffect\<close>); and a
  configuration that lists one handler twice under one key.
\<close>

theorem listener_list_no_duplicates_witness:
  "distinct ([] :: event_listener list)
   \<and> init (Some [(''zim'', Many [stubC, stubC])]) [] = [(''zim'', stubC)]
   \<and> init None (init (Some [(''foo_event'', Single bobEffect)]) [])
        = [(''foo_event'', bobEffect), (''foo_event'', aliceEffect), (''bar_event'', bobEffect)]
   \<and> callCount bobEffect (dispatchEvent (Event ''foo_event'')
        (init None (init (Some [(''foo_event'', Single bobEffect)]) []))) \<le> 1"
  using listener_list_no_duplicates [of "[]" "Some [(''foo_event'', Single bobEffect)]" None
      "''foo_event''" bobEffect]
  by (simp add: init_def init_on_def addEventListener_def LISTENER_CONFIG_def)

section \<open>The frame of init\<close>

text \<open>
  C10. \<open>init\<close> does not modify its configuration. Let the heap hold the window at \<open>win\<close>
  and, at \<open>config\<close>, an object that reads as the configuration \<open>c\<close>. Then \<open>init(config)\<close>
  returns, and the heap after the call is the heap before it with one cell changed, the
  window's, whose listener list is the one \<open>init\<close> computes from \<open>c\<close>. Every other
  address holds what it held: the configuration object, with its keys and values, and
  the arrays of handlers it refers to; the object still reads as \<open>c\<close>.
\<close>

theorem init_frame:
  assumes "read_config h config = Some c" and "h win = Some (EventTarget ls)"
  shows "heap_init win listener_config (Some config) h
           = Some (h(win \<mapsto> EventTarget (init (Some c) ls)))
         \<and> read_config (h(win \<mapsto> EventTarget (init (Some c) ls))) config = Some c
         \<and> (\<forall>a. a \<noteq> win \<longrightarrow> (h(win \<mapsto> EventTarget (init (Some c) ls))) a = h a)"
proof -
  from assms(1) obtain ps where ps: "h config = Some (Object ps)"
    and r: "read_entries h ps = Some c"
    by (auto simp: read_config_def split: option.splits object.splits)
  have "heap_init win listener_config (Some config) h
      = Some (h(win \<mapsto> EventTarget (init (Some c) ls)))"
    using ps for_entries_result [OF r assms(2)]
    by (simp add: heap_init_def init_def init_on_def)
  moreover have "config \<noteq> win"
    using ps assms(2) by auto
  then have "read_config (h(win \<mapsto> EventTarget (init (Some c) ls))) config = Some c"
    using ps r assms(2) by (simp add: read_config_def read_entries_window)
  ultimately show ?thesis by simp
qed

text \<open>
  The theorem on the heap of the test: the object at 1 reads as the test's
  configuration, and after \<open>init\<close> the heap differs at the window only, which has the six
  listeners.
\<close>

theorem init_frame_witness:
  "read_config test_heap 1 = Some test_config
   \<and> test_heap 0 = Some (EventTarget [])
   \<and> heap_init 0 5 (Some 1) test_heap
     = Some (test_heap(0 \<mapsto> EventTarget
         [(''zim'', stubC), (''gir'', stubC), (''gir'', stubB),
          (''dib'', stubC), (''dib'', stubB), (''dib'', stubA)]))"
proof -
  have cfg: "read_config test_heap 1 = Some test_config"
    by (simp add: read_config_def test_heap_def test_config_def)
  have win: "test_heap 0 = Some (EventTarget [])"
    by (simp add: test_heap_def)
  have ls: "init (Some test_config) []
      = [(''zim'', stubC), (''gir'', stubC), (''gir'', stubB),
         (''dib'', stubC), (''dib'', stubB), (''dib'', stubA)]"
    by (simp add: init_def init_on_def addEventListener_def test_config_def)
  have "heap_init 0 5 (Some 1) test_heap
      = Some (test_heap(0 \<mapsto> EventTarget (init (Some test_config) [])))"
    using init_frame [OF cfg win, of 5] by (rule conjunct1)
  then have "heap_init 0 5 (Some 1) test_heap
      = Some (test_heap(0 \<mapsto> EventTarget
         [(''zim'', stubC), (''gir'', stubC), (''gir'', stubB),
          (''dib'', stubC), (''dib'', stubB), (''dib'', stubA)]))"
    by (simp only: ls)
  with cfg win show ?thesis by blast
qed

end
